theory Spec2Isabelle
  imports Main "HOL-Library.Word" "HOL-Library.Signed_Division"
begin

section \<open>Machine types\<close>

text \<open>
  The sketch targets the ATmega328 (the pin comments of \<^verbatim>\<open>midi_clock.ino\<close> give its
  DIP-28 pin numbers), so \<^verbatim>\<open>int\<close> has 16 bits, \<^verbatim>\<open>long\<close> and
  \<^verbatim>\<open>unsigned long\<close> have 32 bits and \<^verbatim>\<open>byte\<close> has 8 bits. Signed values are
  words read through \<open>sint\<close>; arithmetic on them wraps, as avr-gcc compiles it.
  The timer interrupt (\<^verbatim>\<open>clockTick\<close>, attached to Timer1 in line 91) is never masked:
  it runs between the calls made from \<^verbatim>\<open>loop()\<close> and also inside them. The
  functions \<open>doStartStopInput\<close> and \<open>doTapInput\<close> below are the runs in which no
  interrupt is served inside the call; \<open>doStartStopInputIrq\<close> is the transport handler
  with the interrupts served between the statements of its start branch.
\<close>

type_synonym byte = "8 word"
type_synonym c_int = "16 word"
type_synonym c_long = "32 word"
type_synonym ulong = "32 word"

text \<open>The two values \<^verbatim>\<open>digitalRead\<close> returns and \<^verbatim>\<open>digitalWrite\<close> takes.\<close>

datatype level = LOW | HIGH

text \<open>
  The calls made on the MIDI library, in the order they are made:
  \<^verbatim>\<open>sendRealTime(midi::Start)\<close>, \<^verbatim>\<open>sendRealTime(midi::Stop)\<close>,
  \<^verbatim>\<open>sendRealTime(midi::Clock)\<close> and
  \<^verbatim>\<open>sendControlChange(number, value, channel)\<close>.
\<close>

datatype midi_msg = Start | Stop | Clock | ControlChange nat nat nat

text \<open>Integer division by zero is undefined in C++; the model makes it a fault.\<close>

datatype fault = DivisionByZero

section \<open>Constants\<close>

definition TEMPO_MIN :: c_int where "TEMPO_MIN = 40"
definition TEMPO_MAX :: c_int where "TEMPO_MAX = 300"
definition PPQ :: c_int where "PPQ = 24"
definition DEBOUNCE_TIME :: ulong where "DEBOUNCE_TIME = 30"
definition TAP_EXPIRE_FACTOR :: ulong where "TAP_EXPIRE_FACTOR = 2"
definition TAP_EXPIRE_DEFAULT :: ulong where "TAP_EXPIRE_DEFAULT = 1715000"

section \<open>Program state\<close>

text \<open>
  The global variables of the sketch, followed by what it drives: the messages handed to
  the MIDI library so far, the levels written to the two LED pins, the period programmed
  into Timer1 and the count held by the encoder object.
\<close>

record clock_state =
  started :: bool
  lastTapDebounceTime :: ulong
  lastStartDebounceTime :: ulong
  lastTapTime :: ulong
  tapExpireTime :: ulong
  lastTapState :: level
  lastStartState :: level
  tempo :: c_int
  currentTick :: byte
  midiOut :: "midi_msg list"
  tempoLed :: level
  runningLed :: level
  timerPeriod :: ulong
  encoderCount :: c_long

definition send :: "midi_msg \<Rightarrow> clock_state \<Rightarrow> clock_state" where
  "send m s = s\<lparr>midiOut := midiOut s @ [m]\<rparr>"

section \<open>Tick period\<close>

text \<open>
  \<^verbatim>\<open>long tempoMicros = (60 * 1000000) / (tempo * PPQ);\<close>
  The dividend is a \<^verbatim>\<open>long\<close> constant (1000000 does not fit a 16-bit int); the divisor
  is an \<^verbatim>\<open>int\<close> product, widened to \<^verbatim>\<open>long\<close> with its sign; the division is
  signed and truncates towards zero.
\<close>

definition long_div :: "c_long \<Rightarrow> c_long \<Rightarrow> fault + c_long" where
  "long_div a b = (if b = 0 then Inl DivisionByZero else Inr (word_of_int (sint a sdiv sint b)))"

definition calcTempoMicros :: "clock_state \<Rightarrow> fault + c_long" where
  "calcTempoMicros s = long_div (60 * 1000000) (scast (tempo s * PPQ))"

text \<open>\<^verbatim>\<open>Timer1.setPeriod(calcTempoMicros());\<close>\<close>

definition setPeriod :: "clock_state \<Rightarrow> fault + clock_state" where
  "setPeriod s = (case calcTempoMicros s of
                    Inl e \<Rightarrow> Inl e
                  | Inr p \<Rightarrow> Inr (s\<lparr>timerPeriod := p\<rparr>))"

section \<open>Tap tempo\<close>

text \<open>
  \<^verbatim>\<open>tapTempo\<close>; the argument \<open>us\<close> is the value its call of \<^verbatim>\<open>micros()\<close> returns.
  In the second branch the dividend 60000000 is a \<^verbatim>\<open>long\<close> and the divisor an
  \<^verbatim>\<open>unsigned long\<close>, so the division is unsigned; the quotient is cut to the 16 bits
  of \<^verbatim>\<open>int bpm\<close>. The source divides without testing the divisor: \<open>ulong_div\<close> returns
  the fault where the divisor is zero.
\<close>

definition ulong_div :: "ulong \<Rightarrow> ulong \<Rightarrow> fault + ulong" where
  "ulong_div a b = (if b = 0 then Inl DivisionByZero else Inr (a div b))"

definition tapTempo :: "ulong \<Rightarrow> clock_state \<Rightarrow> fault + clock_state" where
  "tapTempo us s =
     (if lastTapTime s = 0 then
        Inr (s\<lparr>lastTapTime := us, tapExpireTime := TAP_EXPIRE_DEFAULT\<rparr>)
      else
        let newTapTime = us;
            timeDifference = newTapTime - lastTapTime s;
            s1 = s\<lparr>tapExpireTime := timeDifference * TAP_EXPIRE_FACTOR\<rparr>
        in case ulong_div 60000000 timeDifference of
             Inl e \<Rightarrow> Inl e
           | Inr q \<Rightarrow>
               (let bpm = (ucast q :: c_int);
                    s2 = s1\<lparr>tempo := bpm\<rparr>
                in (case setPeriod s2 of
                      Inl e \<Rightarrow> Inl e
                    | Inr s3 \<Rightarrow> Inr (s3\<lparr>lastTapTime := newTapTime\<rparr>))))"

section \<open>Tempo step\<close>

text \<open>\<^verbatim>\<open>changeTempo\<close>; the comparisons are signed.\<close>

definition changeTempo :: "c_int \<Rightarrow> clock_state \<Rightarrow> fault + clock_state" where
  "changeTempo offset s =
     (let s1 = s\<lparr>tempo := tempo s + offset\<rparr>;
          s2 = (if sint (tempo s1) < sint TEMPO_MIN then s1\<lparr>tempo := TEMPO_MIN\<rparr>
                else if sint (tempo s1) > sint TEMPO_MAX then s1\<lparr>tempo := TEMPO_MAX\<rparr>
                else s1)
      in case setPeriod s2 of
           Inl e \<Rightarrow> Inl e
         | Inr s3 \<Rightarrow> Inr (s3\<lparr>encoderCount := 0\<rparr>))"

section \<open>Timer interrupt\<close>

definition clockTick :: "clock_state \<Rightarrow> clock_state" where
  "clockTick s =
     (let s1 = (if started s then send Clock s else s);
          s2 = (if currentTick s1 = 0 then s1\<lparr>tempoLed := HIGH\<rparr> else s1);
          s3 = (if currentTick s2 = 4 then s2\<lparr>tempoLed := LOW\<rparr> else s2);
          s4 = s3\<lparr>currentTick := currentTick s3 + 1\<rparr>
      in if currentTick s4 = 24 then s4\<lparr>currentTick := 0\<rparr> else s4)"

section \<open>Transport button\<close>

text \<open>The loop \<^verbatim>\<open>for (int i=1; i<=16; i++) MIDI.sendControlChange(123, 0, i);\<close>\<close>

function allNotesOff :: "nat \<Rightarrow> clock_state \<Rightarrow> clock_state" where
  "allNotesOff i s = (if i \<le> 16 then allNotesOff (i + 1) (send (ControlChange 123 0 i) s) else s)"
  by pat_completeness auto
termination
  by (relation "measure (\<lambda>(i, s). 17 - i)") auto

text \<open>
  Lines 140 to 153: what an accepted press of the transport button does when no timer
  interrupt is served in between.
\<close>

definition toggleStarted :: "clock_state \<Rightarrow> clock_state" where
  "toggleStarted s =
     (let s1 = s\<lparr>started := \<not> started s\<rparr>
      in if started s1 then
           (send Start s1)\<lparr>runningLed := HIGH, currentTick := 0\<rparr>
         else
           (allNotesOff 1 (send Stop s1))\<lparr>runningLed := LOW\<rparr>)"

text \<open>
  \<^verbatim>\<open>doStartStopInput\<close>; \<open>newStartState\<close> is the level \<^verbatim>\<open>digitalRead\<close> returns,
  \<open>ms\<close> the value of the call of \<^verbatim>\<open>millis()\<close> in line 136 and \<open>ms'\<close> that of the
  call in line 157.
\<close>

definition doStartStopInput :: "level \<Rightarrow> ulong \<Rightarrow> ulong \<Rightarrow> clock_state \<Rightarrow> clock_state" where
  "doStartStopInput newStartState ms ms' s =
     (let s1 = (if newStartState \<noteq> lastStartState s \<and> lastStartDebounceTime s = 0 then
                  let s2 = s\<lparr>lastStartDebounceTime := ms, lastStartState := newStartState\<rparr>
                  in if lastStartState s2 = LOW then toggleStarted s2 else s2
                else s)
      in if ms' - DEBOUNCE_TIME \<ge> lastStartDebounceTime s1
         then s1\<lparr>lastStartDebounceTime := 0\<rparr> else s1)"

text \<open>
  The same lines with the timer interrupt: \<^verbatim>\<open>clockTick\<close> is served \<open>a\<close> times
  between line 140 (\<^verbatim>\<open>started = !started\<close>) and line 143 (Start is sent), \<open>b\<close>
  times between line 143 and line 144 (the running LED) and \<open>c\<close> times between line 144
  and line 145 (\<^verbatim>\<open>currentTick = 0\<close>). In the stop branch \<^verbatim>\<open>started\<close> is false
  from line 140 on, and the branch is left as it is.
\<close>

definition toggleStartedIrq :: "nat \<Rightarrow> nat \<Rightarrow> nat \<Rightarrow> clock_state \<Rightarrow> clock_state" where
  "toggleStartedIrq a b c s =
     (let s1 = s\<lparr>started := \<not> started s\<rparr>
      in if started s1 then
           (let s2 = send Start ((clockTick ^^ a) s1);
                s3 = ((clockTick ^^ b) s2)\<lparr>runningLed := HIGH\<rparr>
            in ((clockTick ^^ c) s3)\<lparr>currentTick := 0\<rparr>)
         else
           (allNotesOff 1 (send Stop s1))\<lparr>runningLed := LOW\<rparr>)"

definition doStartStopInputIrq ::
    "nat \<Rightarrow> nat \<Rightarrow> nat \<Rightarrow> level \<Rightarrow> ulong \<Rightarrow> ulong \<Rightarrow> clock_state \<Rightarrow> clock_state" where
  "doStartStopInputIrq a b c newStartState ms ms' s =
     (let s1 = (if newStartState \<noteq> lastStartState s \<and> lastStartDebounceTime s = 0 then
                  let s2 = s\<lparr>lastStartDebounceTime := ms, lastStartState := newStartState\<rparr>
                  in if lastStartState s2 = LOW then toggleStartedIrq a b c s2 else s2
                else s)
      in if ms' - DEBOUNCE_TIME \<ge> lastStartDebounceTime s1
         then s1\<lparr>lastStartDebounceTime := 0\<rparr> else s1)"

section \<open>Tap button\<close>

text \<open>
  Lines 183 to 186, the last statement of \<^verbatim>\<open>doTapInput\<close>: the debounce timer is
  set back to idle; \<open>ms'\<close> is the value of \<^verbatim>\<open>millis()\<close> in line 183.
\<close>

definition debounceTap :: "ulong \<Rightarrow> clock_state \<Rightarrow> clock_state" where
  "debounceTap ms' s =
     (if ms' - DEBOUNCE_TIME \<ge> lastTapDebounceTime s
      then s\<lparr>lastTapDebounceTime := 0\<rparr> else s)"

text \<open>
  \<^verbatim>\<open>doTapInput\<close>; \<open>newTapState\<close> is the level read, \<open>ms\<close> the value of
  \<^verbatim>\<open>millis()\<close> in line 170, \<open>us\<close> the value of the one call of \<^verbatim>\<open>micros()\<close>
  the function makes (in \<^verbatim>\<open>tapTempo\<close> or in line 178) and \<open>ms'\<close> the value of
  \<^verbatim>\<open>millis()\<close> in line 183.
\<close>

definition doTapInput :: "level \<Rightarrow> ulong \<Rightarrow> ulong \<Rightarrow> ulong \<Rightarrow> clock_state \<Rightarrow> fault + clock_state" where
  "doTapInput newTapState ms us ms' s =
     (if newTapState \<noteq> lastTapState s then
        (if lastTapDebounceTime s = 0 then
           let s1 = s\<lparr>lastTapDebounceTime := ms, lastTapState := newTapState\<rparr>
           in if lastTapState s1 = LOW then
                (case tapTempo us s1 of
                   Inl e \<Rightarrow> Inl e
                 | Inr s2 \<Rightarrow> Inr (debounceTap ms' s2))
              else Inr (debounceTap ms' s1)
         else Inr (debounceTap ms' s))
      else
        (if lastTapTime s > 0 \<and> us - tapExpireTime s \<ge> lastTapTime s
         then Inr (debounceTap ms' (s\<lparr>lastTapTime := 0\<rparr>))
         else Inr (debounceTap ms' s)))"

section \<open>Power-on state\<close>

text \<open>
  The initialisers of the globals (\<open>globals\<close>) and the function \<^verbatim>\<open>setup()\<close>
  (\<open>powerOn\<close>): the two buttons are read once
  (\<open>tap\<close>, \<open>start\<close>) and Timer1 is programmed with the period of the initial tempo.
\<close>

definition globals :: "level \<Rightarrow> level \<Rightarrow> clock_state" where
  "globals tap start =
     \<lparr>started = False, lastTapDebounceTime = 0, lastStartDebounceTime = 0,
      lastTapTime = 0, tapExpireTime = TAP_EXPIRE_DEFAULT,
      lastTapState = tap, lastStartState = start,
      tempo = 120, currentTick = 0, midiOut = [],
      tempoLed = LOW, runningLed = LOW, timerPeriod = 0, encoderCount = 0\<rparr>"

definition powerOn :: "level \<Rightarrow> level \<Rightarrow> fault + clock_state" where
  "powerOn tap start = setPeriod (globals tap start)"

text \<open>The state in which \<^verbatim>\<open>loop()\<close> first runs when neither button is held at power-on.\<close>

definition bootState :: clock_state where
  "bootState = (globals HIGH HIGH)\<lparr>timerPeriod := 20833\<rparr>"

text \<open>Running one faulting step after another: a fault ends the run.\<close>

definition andThen :: "fault + clock_state \<Rightarrow> (clock_state \<Rightarrow> fault + clock_state) \<Rightarrow> fault + clock_state" where
  "andThen r f = (case r of Inl e \<Rightarrow> Inl e | Inr s \<Rightarrow> f s)"

text \<open>The power-on state with the tempo turned down to 90 (a period of 27777 microseconds).\<close>

definition slowState :: clock_state where
  "slowState = bootState\<lparr>tempo := 90, timerPeriod := 27777\<rparr>"

section \<open>Runs of the tap poller\<close>





section \<open>Basic facts\<close>

lemmas cdefs = TEMPO_MIN_def TEMPO_MAX_def PPQ_def DEBOUNCE_TIME_def
  TAP_EXPIRE_FACTOR_def TAP_EXPIRE_DEFAULT_def

declare allNotesOff.simps [simp del]

lemma bootState_fields:
  "started bootState = False" "lastStartState bootState = HIGH"
  "lastStartDebounceTime bootState = 0" "lastTapState bootState = HIGH"
  "lastTapDebounceTime bootState = 0" "lastTapTime bootState = 0"
  "tempo bootState = 120" "currentTick bootState = 0" "midiOut bootState = []"
  by (simp_all add: bootState_def globals_def)

lemma powerOn_bootState: "powerOn HIGH HIGH = Inr bootState"
  by (simp add: powerOn_def bootState_def globals_def setPeriod_def calcTempoMicros_def
        long_div_def PPQ_def)

section \<open>The tick period\<close>

lemma tempo_times_PPQ:
  assumes "40 \<le> sint (t :: c_int)" and "sint t \<le> 300"
  shows "sint (scast (t * PPQ) :: c_long) = sint t * 24"
proof -
  have "sint (t * PPQ) = signed_take_bit 15 (sint t * 24)"
    by (simp add: sint_word_mult PPQ_def)
  also have "\<dots> = sint t * 24"
    using assms by (intro signed_take_bit_int_eq_self) auto
  finally have m: "sint (t * PPQ) = sint t * 24" .
  have "sint (scast (t * PPQ) :: c_long) = sint (t * PPQ)"
    by (rule sint_up_scast) (simp add: is_up)
  with m show ?thesis by simp
qed

lemma calcTempoMicros_in_range:
  assumes "sint TEMPO_MIN \<le> sint (tempo s)" and "sint (tempo s) \<le> sint TEMPO_MAX"
  shows "\<exists>p. calcTempoMicros s = Inr p \<and> sint p = 60000000 div (sint (tempo s) * 24)"
proof -
  let ?t = "sint (tempo s)"
  have lo: "40 \<le> ?t" and hi: "?t \<le> 300"
    using assms by (simp_all add: TEMPO_MIN_def TEMPO_MAX_def)
  have d: "sint (scast (tempo s * PPQ) :: c_long) = ?t * 24"
    using lo hi by (rule tempo_times_PPQ)
  have nz: "(scast (tempo s * PPQ) :: c_long) \<noteq> 0"
  proof
    assume "(scast (tempo s * PPQ) :: c_long) = 0"
    then have "sint (scast (tempo s * PPQ) :: c_long) = 0" by simp
    with d lo show False by simp
  qed
  let ?q = "60000000 div (?t * 24)"
  have q0: "0 \<le> ?q" using lo by (simp add: pos_imp_zdiv_nonneg_iff)
  have "?q \<le> 60000000 div 1"
    using lo by (intro zdiv_mono2) auto
  then have q1: "?q \<le> 60000000" by simp
  have sd: "sint (60 * 1000000 :: c_long) sdiv (?t * 24) = ?q"
    using lo by (simp add: signed_divide_int_def sgn_if)
  have "sint (word_of_int ?q :: c_long) = signed_take_bit 31 ?q"
    by (simp add: sint_sbintrunc')
  also have "\<dots> = ?q"
    using q0 q1 by (intro signed_take_bit_int_eq_self) auto
  finally have r: "sint (word_of_int ?q :: c_long) = ?q" .
  show ?thesis
    using nz d sd r by (simp add: calcTempoMicros_def long_div_def)
qed

lemma setPeriod_in_range:
  assumes "sint TEMPO_MIN \<le> sint (tempo s)" and "sint (tempo s) \<le> sint TEMPO_MAX"
  shows "\<exists>p. setPeriod s = Inr (s\<lparr>timerPeriod := p\<rparr>)"
  using calcTempoMicros_in_range [OF assms] by (auto simp: setPeriod_def)


text \<open>
  C1. For every tempo \<open>t\<close> with \<open>TEMPO_MIN \<le> t \<le> TEMPO_MAX\<close> (40 to 300),
  \<^verbatim>\<open>calcTempoMicros\<close> returns exactly \<open>60,000,000 / (t * 24)\<close> under integer
  division (and the division does not fault).
\<close>

theorem calcTempoMicros_exact:
  assumes "sint TEMPO_MIN \<le> sint (tempo s)" and "sint (tempo s) \<le> sint TEMPO_MAX"
  shows "\<exists>p. calcTempoMicros s = Inr p \<and> sint p = 60000000 div (sint (tempo s) * 24)"
  using assms by (rule calcTempoMicros_in_range)

theorem calcTempoMicros_exact_witness:
  "sint TEMPO_MIN \<le> sint (tempo bootState)
   \<and> sint (tempo bootState) \<le> sint TEMPO_MAX
   \<and> (\<exists>p. calcTempoMicros bootState = Inr p \<and> sint p = 20833)"
  using calcTempoMicros_exact [of bootState]
  by (simp add: bootState_fields TEMPO_MIN_def TEMPO_MAX_def)

section \<open>Tempo step adjustment\<close>

lemma changeTempo_tempo:
  "\<exists>s'. changeTempo offset s = Inr s' \<and>
        tempo s' = (if sint (tempo s + offset) < 40 then 40
                    else if 300 < sint (tempo s + offset) then 300
                    else tempo s + offset)"
proof -
  define s2 where "s2 = s\<lparr>tempo := (if sint (tempo s + offset) < 40 then 40
                    else if 300 < sint (tempo s + offset) then 300
                    else tempo s + offset)\<rparr>"
  have "sint TEMPO_MIN \<le> sint (tempo s2)" and "sint (tempo s2) \<le> sint TEMPO_MAX"
    by (simp_all add: s2_def cdefs)
  then obtain p where "setPeriod s2 = Inr (s2\<lparr>timerPeriod := p\<rparr>)"
    using setPeriod_in_range by blast
  moreover have "changeTempo offset s =
      (case setPeriod s2 of Inl e \<Rightarrow> Inl e | Inr s3 \<Rightarrow> Inr (s3\<lparr>encoderCount := 0\<rparr>))"
    by (simp add: changeTempo_def s2_def Let_def cdefs)
  ultimately have "changeTempo offset s = Inr (s2\<lparr>timerPeriod := p, encoderCount := 0\<rparr>)"
    by simp
  then show ?thesis by (simp add: s2_def)
qed

text \<open>The step adjustment never faults and always leaves the tempo inside 40 to 300.\<close>

lemma changeTempo_in_range:
  "\<exists>s'. changeTempo offset s = Inr s' \<and>
        sint TEMPO_MIN \<le> sint (tempo s') \<and> sint (tempo s') \<le> sint TEMPO_MAX"
proof -
  from changeTempo_tempo [of offset s] obtain s' where
    "changeTempo offset s = Inr s'" and
    "tempo s' = (if sint (tempo s + offset) < 40 then 40
                 else if 300 < sint (tempo s + offset) then 300
                 else tempo s + offset)" by blast
  then show ?thesis by (auto simp: cdefs)
qed

lemma sint_add_int:
  assumes "- 32768 \<le> sint (a :: c_int) + sint b" and "sint a + sint b \<le> 32767"
  shows "sint (a + b) = sint a + sint b"
proof -
  have "sint (a + b) = signed_take_bit 15 (sint a + sint b)"
    by (simp add: sint_word_add)
  also have "\<dots> = sint a + sint b"
    using assms by (intro signed_take_bit_int_eq_self) auto
  finally show ?thesis .
qed

lemma changeTempo_clamp:
  assumes "- 32768 \<le> sint (tempo s) + sint offset" and "sint (tempo s) + sint offset \<le> 32767"
  shows "\<exists>s'. changeTempo offset s = Inr s' \<and>
           sint (tempo s') = max 40 (min 300 (sint (tempo s) + sint offset))"
proof -
  from changeTempo_tempo [of offset s] obtain s' where
    r: "changeTempo offset s = Inr s'" and
    t: "tempo s' = (if sint (tempo s + offset) < 40 then 40
                    else if 300 < sint (tempo s + offset) then 300
                    else tempo s + offset)" by blast
  have "sint (tempo s + offset) = sint (tempo s) + sint offset"
    using assms by (rule sint_add_int)
  with t have "sint (tempo s') = max 40 (min 300 (sint (tempo s) + sint offset))"
    by auto
  with r show ?thesis by blast
qed

text \<open>
  C9. For every tempo \<open>t\<close> with \<open>TEMPO_MIN \<le> t \<le> TEMPO_MAX\<close>, \<^verbatim>\<open>changeTempo(+1)\<close>
  followed by \<^verbatim>\<open>changeTempo(-1)\<close> returns the tempo to \<open>t\<close>, except at the clamped
  boundary: at \<open>t = TEMPO_MAX\<close> the step \<open>+1\<close> leaves the tempo unchanged and the step
  \<open>-1\<close> then lands on \<open>TEMPO_MAX - 1\<close>. And \<^verbatim>\<open>changeTempo\<close> always applies
  \<open>tempo += offset\<close> (for every tempo and offset whose sum is an \<^verbatim>\<open>int\<close>) and clamps
  the result into \<open>[TEMPO_MIN, TEMPO_MAX]\<close>.
\<close>

theorem changeTempo_round_trip:
  "(sint TEMPO_MIN \<le> sint (tempo s) \<and> sint (tempo s) \<le> sint TEMPO_MAX \<longrightarrow>
      (\<exists>s1 s2. changeTempo 1 s = Inr s1 \<and> changeTempo (- 1) s1 = Inr s2
         \<and> (tempo s \<noteq> TEMPO_MAX \<longrightarrow> tempo s2 = tempo s)
         \<and> (tempo s = TEMPO_MAX \<longrightarrow>
               tempo s1 = tempo s \<and> sint (tempo s2) = sint TEMPO_MAX - 1)))
   \<and> (- 32768 \<le> sint (tempo s) + sint offset \<and> sint (tempo s) + sint offset \<le> 32767 \<longrightarrow>
      (\<exists>s'. changeTempo offset s = Inr s' \<and>
         sint (tempo s') =
           max (sint TEMPO_MIN) (min (sint TEMPO_MAX) (sint (tempo s) + sint offset))))"
proof (intro conjI impI)
  assume "- 32768 \<le> sint (tempo s) + sint offset \<and> sint (tempo s) + sint offset \<le> 32767"
  then show "\<exists>s'. changeTempo offset s = Inr s' \<and>
         sint (tempo s') =
           max (sint TEMPO_MIN) (min (sint TEMPO_MAX) (sint (tempo s) + sint offset))"
    using changeTempo_clamp [of s offset] by (simp add: cdefs)
next
  assume "sint TEMPO_MIN \<le> sint (tempo s) \<and> sint (tempo s) \<le> sint TEMPO_MAX"
  then have lo: "40 \<le> sint (tempo s)" and hi: "sint (tempo s) \<le> 300"
    by (simp_all add: cdefs)
  from lo hi changeTempo_clamp [of s 1] obtain s1 where
    r1: "changeTempo 1 s = Inr s1" and t1: "sint (tempo s1) = min 300 (sint (tempo s) + 1)"
    by auto
  from lo hi t1 have b1: "41 \<le> sint (tempo s1)" and b2: "sint (tempo s1) \<le> 300"
    by simp_all
  have "- 32768 \<le> sint (tempo s1) + sint (- 1 :: c_int)"
    and "sint (tempo s1) + sint (- 1 :: c_int) \<le> 32767"
    using b1 b2 by simp_all
  from changeTempo_clamp [OF this] b1 b2 obtain s2 where
    r2: "changeTempo (- 1) s1 = Inr s2" and t2: "sint (tempo s2) = sint (tempo s1) - 1"
    by auto
  have m: "tempo s = TEMPO_MAX \<longleftrightarrow> sint (tempo s) = 300"
    by (simp add: cdefs word_eq_iff_signed [where ?'a = int])
  have a: "tempo s \<noteq> TEMPO_MAX \<longrightarrow> tempo s2 = tempo s"
  proof
    assume "tempo s \<noteq> TEMPO_MAX"
    with m hi have "sint (tempo s) < 300" by simp
    with t1 t2 have "sint (tempo s2) = sint (tempo s)" by simp
    then show "tempo s2 = tempo s" by (simp add: word_eq_iff_signed [where ?'a = int])
  qed
  have b: "tempo s = TEMPO_MAX \<longrightarrow> tempo s1 = tempo s \<and> sint (tempo s2) = sint TEMPO_MAX - 1"
  proof
    assume e: "tempo s = TEMPO_MAX"
    with m have "sint (tempo s) = 300" by simp
    with t1 t2 have "sint (tempo s1) = sint (tempo s)" and "sint (tempo s2) = 299" by simp_all
    then show "tempo s1 = tempo s \<and> sint (tempo s2) = sint TEMPO_MAX - 1"
      by (simp add: word_eq_iff_signed [where ?'a = int] cdefs)
  qed
  from r1 r2 a b show "\<exists>s1 s2. changeTempo 1 s = Inr s1 \<and> changeTempo (- 1) s1 = Inr s2
         \<and> (tempo s \<noteq> TEMPO_MAX \<longrightarrow> tempo s2 = tempo s)
         \<and> (tempo s = TEMPO_MAX \<longrightarrow>
               tempo s1 = tempo s \<and> sint (tempo s2) = sint TEMPO_MAX - 1)"
    by blast
qed

theorem changeTempo_round_trip_witness:
  "sint TEMPO_MIN \<le> sint (tempo bootState) \<and> sint (tempo bootState) \<le> sint TEMPO_MAX
   \<and> tempo bootState \<noteq> TEMPO_MAX
   \<and> - 32768 \<le> sint (tempo bootState) + sint (1 :: c_int)
   \<and> sint (tempo bootState) + sint (1 :: c_int) \<le> 32767
   \<and> (\<exists>s1 s2. changeTempo 1 bootState = Inr s1 \<and> changeTempo (- 1) s1 = Inr s2
         \<and> tempo s2 = 120)
   \<and> (\<exists>s'. changeTempo 1 bootState = Inr s' \<and> sint (tempo s') = 121)
   \<and> tempo (bootState\<lparr>tempo := 300\<rparr>) = TEMPO_MAX
   \<and> (\<exists>s1 s2. changeTempo 1 (bootState\<lparr>tempo := 300\<rparr>) = Inr s1
         \<and> changeTempo (- 1) s1 = Inr s2 \<and> tempo s1 = 300 \<and> sint (tempo s2) = 299)"
  using changeTempo_round_trip [of bootState 1]
    changeTempo_round_trip [of "bootState\<lparr>tempo := 300\<rparr>" 1]
  by (simp add: bootState_fields cdefs)

section \<open>Tap tempo\<close>

text \<open>
  C2. The tempo stays inside \<open>[TEMPO_MIN, TEMPO_MAX]\<close> after every write. The step
  adjustment keeps it there (\<open>changeTempo_in_range\<close>); the tap path does not clamp:
  with the first tap 2.0 s after power-on and the second 1.6 s later (before the default
  expiry of 1.715 s), \<^verbatim>\<open>tapTempo\<close> stores \<open>60000000 / 1600000 = 37\<close>, below
  \<open>TEMPO_MIN\<close>.
\<close>

theorem tapTempo_leaves_tempo_range:
  "andThen (tapTempo 2000000 bootState) (tapTempo 3600000)
     = Inr (bootState\<lparr>lastTapTime := 3600000, tapExpireTime := 3200000,
                       tempo := 37, timerPeriod := 67567\<rparr>)
   \<and> sint (37 :: c_int) < sint TEMPO_MIN"
  by (simp add: andThen_def tapTempo_def bootState_def globals_def setPeriod_def
        calcTempoMicros_def long_div_def ulong_div_def cdefs Let_def)

lemma debounceTap_lastTapTime: "lastTapTime (debounceTap ms' s) = lastTapTime s"
  by (simp add: debounceTap_def)


text \<open>
  C3 as it is written fails: \<^verbatim>\<open>tapTempo\<close> has no test for an interval of zero. Called
  twice with the same reading of \<^verbatim>\<open>micros()\<close>, the second call is not ignored: it
  evaluates \<open>60000000 / 0\<close>.
\<close>

theorem tapTempo_zero_interval_counterexample:
  "andThen (tapTempo 1000 bootState) (tapTempo 1000) = Inl DivisionByZero"
  by (simp add: andThen_def tapTempo_def bootState_def globals_def ulong_div_def cdefs Let_def)

lemma tapTempo_zero_interval:
  "lastTapTime s \<noteq> 0 \<Longrightarrow> tapTempo (lastTapTime s) s = Inl DivisionByZero"
  by (simp add: tapTempo_def ulong_div_def Let_def)

lemma tapTempo_lastTapTime:
  "tapTempo us s = Inr s' \<Longrightarrow> lastTapTime s' = us"
  by (auto simp: tapTempo_def ulong_div_def setPeriod_def Let_def
      split: if_splits sum.splits)

text \<open>With a nonzero interval, the only division that can fault is the one of line 222.\<close>

lemma tapTempo_fault:
  assumes "us - lastTapTime s \<noteq> 0" and "tapTempo us s = Inl DivisionByZero"
  shows "(scast ((ucast (60000000 div (us - lastTapTime s)) :: c_int) * PPQ) :: c_long) = 0"
  using assms
  by (auto simp: tapTempo_def ulong_div_def setPeriod_def calcTempoMicros_def long_div_def
      Let_def split: if_splits sum.splits)

lemma doTapInput_lastTapTime:
  assumes "doTapInput raw ms us ms' s = Inr s'"
  shows "lastTapTime s' = lastTapTime s \<or> lastTapTime s' = 0 \<or> lastTapTime s' = us"
  using assms
  by (auto simp: doTapInput_def debounceTap_lastTapTime Let_def dest: tapTempo_lastTapTime
      split: if_splits sum.splits)

lemma doTapInput_fault:
  assumes "doTapInput raw ms us ms' s = Inl e"
  shows "tapTempo us (s\<lparr>lastTapDebounceTime := ms, lastTapState := raw\<rparr>) = Inl e"
  using assms
  by (auto simp: doTapInput_def Let_def split: if_splits sum.splits)

text \<open>
  C3, amended. The tap-interval computation has no guard against an interval of zero: a
  call of \<^verbatim>\<open>tapTempo\<close> whose reading of \<^verbatim>\<open>micros()\<close> equals a recorded (nonzero)
  \<^verbatim>\<open>lastTapTime\<close> divides by zero. In the poller the interval is not zero as long as
  the readings of \<^verbatim>\<open>micros()\<close> grow from poll to poll: if the recorded timestamp is
  not later than the previous reading \<open>us0\<close> and the poll reads \<open>us > us0\<close>, then the
  divisor of line 199 is not zero, the timestamp recorded after the poll is not later than
  \<open>us\<close> (so the same holds at the next poll), and if the poll faults at all, it is in the
  period computation of line 222, whose divisor \<open>tempo * PPQ\<close> is then zero.
\<close>

theorem tap_interval_nonzero:
  "(lastTapTime s \<noteq> 0 \<longrightarrow> tapTempo (lastTapTime s) s = Inl DivisionByZero)
   \<and> (unat (lastTapTime s) \<le> unat us0 \<and> unat us0 < unat us \<longrightarrow>
        us - lastTapTime s \<noteq> 0
        \<and> (\<forall>s'. doTapInput raw ms us ms' s = Inr s' \<longrightarrow> unat (lastTapTime s') \<le> unat us)
        \<and> (doTapInput raw ms us ms' s = Inl DivisionByZero \<longrightarrow>
             (scast ((ucast (60000000 div (us - lastTapTime s)) :: c_int) * PPQ) :: c_long) = 0))"
proof (intro conjI impI allI)
  assume "lastTapTime s \<noteq> 0"
  then show "tapTempo (lastTapTime s) s = Inl DivisionByZero"
    by (rule tapTempo_zero_interval)
next
  assume h: "unat (lastTapTime s) \<le> unat us0 \<and> unat us0 < unat us"
  then have "us \<noteq> lastTapTime s" by auto
  then show nz: "us - lastTapTime s \<noteq> 0" by simp
  {
    fix s'
    assume "doTapInput raw ms us ms' s = Inr s'"
    from doTapInput_lastTapTime [OF this] h
    show "unat (lastTapTime s') \<le> unat us" by auto
  }
  assume "doTapInput raw ms us ms' s = Inl DivisionByZero"
  then have "tapTempo us (s\<lparr>lastTapDebounceTime := ms, lastTapState := raw\<rparr>) = Inl DivisionByZero"
    by (rule doTapInput_fault)
  with nz tapTempo_fault [of us "s\<lparr>lastTapDebounceTime := ms, lastTapState := raw\<rparr>"]
  show "(scast ((ucast (60000000 div (us - lastTapTime s)) :: c_int) * PPQ) :: c_long) = 0"
    by simp
qed

theorem tap_interval_nonzero_witness:
  "lastTapTime (slowState\<lparr>lastTapTime := 2000000\<rparr>) \<noteq> 0
   \<and> tapTempo 2000000 (slowState\<lparr>lastTapTime := 2000000\<rparr>) = Inl DivisionByZero
   \<and> unat (lastTapTime (slowState\<lparr>lastTapTime := 2000000\<rparr>)) \<le> unat (2400000 :: ulong)
   \<and> unat (2400000 :: ulong) < unat (2500000 :: ulong)
   \<and> doTapInput LOW 2500 2500000 2500 (slowState\<lparr>lastTapTime := 2000000\<rparr>)
       = Inr (slowState\<lparr>lastTapDebounceTime := 2500, lastTapState := LOW,
                         tapExpireTime := 1000000, tempo := 120, timerPeriod := 20833,
                         lastTapTime := 2500000\<rparr>)
   \<and> unat (lastTapTime (slowState\<lparr>lastTapDebounceTime := 2500, lastTapState := LOW,
                         tapExpireTime := 1000000, tempo := 120, timerPeriod := 20833,
                         lastTapTime := 2500000\<rparr>)) \<le> unat (2500000 :: ulong)"
proof -
  let ?s = "slowState\<lparr>lastTapTime := 2000000\<rparr>"
  have e: "doTapInput LOW 2500 2500000 2500 ?s
       = Inr (slowState\<lparr>lastTapDebounceTime := 2500, lastTapState := LOW,
                         tapExpireTime := 1000000, tempo := 120, timerPeriod := 20833,
                         lastTapTime := 2500000\<rparr>)"
    by (simp add: doTapInput_def debounceTap_def tapTempo_def ulong_div_def
          setPeriod_def calcTempoMicros_def long_div_def Let_def
          slowState_def bootState_def globals_def cdefs)
  from tap_interval_nonzero [of ?s 2400000 2500000 LOW 2500 2500] e show ?thesis
    by simp
qed








text \<open>
  C8. For every state with a recorded tap (\<^verbatim>\<open>lastTapTime\<close> not 0) and every poll without
  a level change at a time \<open>us\<close> with \<open>us - lastTapTime \<ge> tapExpireTime\<close> (as a
  difference of the two counter readings), the poll clears the tap history, so that the next
  tap, whenever it comes, is a first tap: it records its timestamp and sets the expiry window
  to \<open>TAP_EXPIRE_DEFAULT\<close>, and writes nothing else.
\<close>

theorem tap_expiry:
  assumes "lastTapTime s \<noteq> 0" and "newTapState = lastTapState s"
    and "unat (lastTapTime s) + unat (tapExpireTime s) \<le> unat us"
  shows "\<exists>s'. doTapInput newTapState ms us ms' s = Inr s' \<and> lastTapTime s' = 0
           \<and> tapTempo us' s'
               = Inr (s'\<lparr>lastTapTime := us', tapExpireTime := TAP_EXPIRE_DEFAULT\<rparr>)"
proof -
  have le: "tapExpireTime s \<le> us"
    using assms(3) by (simp add: word_le_nat_alt)
  then have "unat (us - tapExpireTime s) = unat us - unat (tapExpireTime s)"
    by (rule unat_sub)
  with assms(3) have ex: "lastTapTime s \<le> us - tapExpireTime s"
    by (simp add: word_le_nat_alt)
  have pos: "0 < lastTapTime s"
    using assms(1) by (simp add: word_greater_zero_iff)
  let ?s' = "debounceTap ms' (s\<lparr>lastTapTime := 0\<rparr>)"
  have "doTapInput newTapState ms us ms' s = Inr ?s'"
    using assms(2) ex pos by (simp add: doTapInput_def)
  moreover have "lastTapTime ?s' = 0"
    by (simp add: debounceTap_lastTapTime)
  moreover from this have
    "tapTempo us' ?s' = Inr (?s'\<lparr>lastTapTime := us', tapExpireTime := TAP_EXPIRE_DEFAULT\<rparr>)"
    by (simp add: tapTempo_def)
  ultimately show ?thesis by blast
qed

theorem tap_expiry_witness:
  "lastTapTime (bootState\<lparr>lastTapTime := 2000000\<rparr>) \<noteq> 0
   \<and> HIGH = lastTapState (bootState\<lparr>lastTapTime := 2000000\<rparr>)
   \<and> unat (lastTapTime (bootState\<lparr>lastTapTime := 2000000\<rparr>))
       + unat (tapExpireTime (bootState\<lparr>lastTapTime := 2000000\<rparr>)) \<le> unat (3715000 :: ulong)
   \<and> (\<exists>s'. doTapInput HIGH 3715 3715000 3715 (bootState\<lparr>lastTapTime := 2000000\<rparr>) = Inr s'
         \<and> lastTapTime s' = 0
         \<and> tapTempo 9000000 s'
             = Inr (s'\<lparr>lastTapTime := 9000000, tapExpireTime := TAP_EXPIRE_DEFAULT\<rparr>))"
  using tap_expiry [of "bootState\<lparr>lastTapTime := 2000000\<rparr>" HIGH 3715000 3715 3715 9000000]
  by (simp add: bootState_def globals_def cdefs)

section \<open>The tick handler\<close>

lemma clockTick_started: "started (clockTick s) = started s"
  by (simp add: clockTick_def send_def Let_def)

lemma clockTick_midiOut:
  "midiOut (clockTick s) = (if started s then midiOut s @ [Clock] else midiOut s)"
  by (simp add: clockTick_def send_def Let_def)

lemma clockTick_currentTick:
  "currentTick (clockTick s) = (if currentTick s + 1 = 24 then 0 else currentTick s + 1)"
  by (simp add: clockTick_def send_def Let_def)

lemma clockTick_tempoLed:
  "tempoLed (clockTick s) =
     (if currentTick s = 4 then LOW else if currentTick s = 0 then HIGH else tempoLed s)"
  by (simp add: clockTick_def send_def Let_def)

lemma ticks_started: "started ((clockTick ^^ n) s) = started s"
  by (induction n) (simp_all add: clockTick_started)

lemma ticks_midiOut:
  "midiOut ((clockTick ^^ n) s) = (if started s then midiOut s @ replicate n Clock else midiOut s)"
proof (induction n)
  case 0
  show ?case by simp
next
  case (Suc n)
  then show ?case
    by (simp add: clockTick_midiOut ticks_started replicate_append_same)
qed

lemma byte_succ:
  assumes "unat (c :: byte) < 24"
  shows "unat (if c + 1 = 24 then 0 else c + 1) = (unat c + 1) mod 24"
proof -
  have u: "unat (c + 1) = unat c + 1"
    using assms by (simp add: unat_word_ariths)
  have "c + 1 = 24 \<longleftrightarrow> unat (c + 1) = 24"
    by (simp add: word_unat_eq_iff)
  with u assms show ?thesis by auto
qed

lemma ticks_currentTick:
  assumes "unat (currentTick s) < 24"
  shows "unat (currentTick ((clockTick ^^ n) s)) = (unat (currentTick s) + n) mod 24"
proof (induction n)
  case 0
  with assms show ?case by simp
next
  case (Suc n)
  have "unat (currentTick ((clockTick ^^ n) s)) < 24"
    by (simp add: Suc)
  from byte_succ [OF this] Suc show ?case
    by (simp add: clockTick_currentTick mod_Suc_eq)
qed

text \<open>
  The level on the tempo LED after \<open>n + 1\<close> ticks, counted from a state whose counter is 0:
  the last of these ticks found the counter at \<open>n mod 24\<close>.
\<close>

lemma ticks_tempoLed:
  assumes "currentTick s = 0"
  shows "tempoLed ((clockTick ^^ Suc n) s) = (if n mod 24 < 4 then HIGH else LOW)"
proof (induction n)
  case 0
  with assms show ?case by (simp add: clockTick_tempoLed)
next
  case (Suc n)
  have c: "unat (currentTick ((clockTick ^^ Suc n) s)) = Suc n mod 24"
    using ticks_currentTick [of s "Suc n"] assms by simp
  have e4: "currentTick ((clockTick ^^ Suc n) s) = 4 \<longleftrightarrow> Suc n mod 24 = 4"
    using c by (simp add: word_unat_eq_iff)
  have e0: "currentTick ((clockTick ^^ Suc n) s) = 0 \<longleftrightarrow> Suc n mod 24 = 0"
    using c by (simp add: word_unat_eq_iff)
  have "tempoLed ((clockTick ^^ Suc (Suc n)) s) =
        (if Suc n mod 24 = 4 then LOW else if Suc n mod 24 = 0 then HIGH
         else (if n mod 24 < 4 then HIGH else LOW))"
    using Suc e4 e0 clockTick_tempoLed [of "(clockTick ^^ Suc n) s"] by simp
  also have "\<dots> = (if Suc n mod 24 < 4 then HIGH else LOW)"
    by (simp add: mod_Suc)
  finally show ?case .
qed

text \<open>
  C6. Under repeated invocation of the tick handler, from a state whose counter is 0, the
  tick counter cycles 0, 1, ..., 23, 0, 1, ... without end: after \<open>n\<close> invocations it is
  \<open>n mod 24\<close>, so always below 24. The tempo LED is high exactly during the counter values
  0, 1, 2, 3 and low during 4 to 23: the invocation that finds the counter at \<open>c\<close> leaves
  the LED high if \<open>c < 4\<close> and low otherwise.
\<close>

theorem tick_cycle:
  assumes "currentTick s = 0"
  shows "unat (currentTick ((clockTick ^^ n) s)) = n mod 24
       \<and> currentTick ((clockTick ^^ n) s) < 24
       \<and> tempoLed (clockTick ((clockTick ^^ n) s))
           = (if currentTick ((clockTick ^^ n) s) < 4 then HIGH else LOW)"
proof -
  have c: "unat (currentTick ((clockTick ^^ n) s)) = n mod 24"
    using ticks_currentTick [of s n] assms by simp
  then have b: "currentTick ((clockTick ^^ n) s) < 24"
    by (simp add: word_less_nat_alt)
  have "currentTick ((clockTick ^^ n) s) < 4 \<longleftrightarrow> n mod 24 < 4"
    using c by (simp add: word_less_nat_alt)
  with b c ticks_tempoLed [OF assms, of n] show ?thesis by simp
qed

theorem tick_cycle_witness:
  "currentTick bootState = 0
   \<and> unat (currentTick ((clockTick ^^ 27) bootState)) = 3
   \<and> tempoLed (clockTick ((clockTick ^^ 27) bootState)) = HIGH
   \<and> unat (currentTick ((clockTick ^^ 28) bootState)) = 4
   \<and> tempoLed (clockTick ((clockTick ^^ 28) bootState)) = LOW"
proof -
  have h: "currentTick bootState = 0"
    by (simp add: bootState_fields)
  from tick_cycle [OF h, of 27] tick_cycle [OF h, of 28] h show ?thesis
    by (simp add: word_less_nat_alt)
qed

section \<open>The transport button\<close>

lemma allNotesOff_eq:
  "allNotesOff i s = s\<lparr>midiOut := midiOut s @ map (ControlChange 123 0) [i..<17]\<rparr>"
proof (induction i s rule: allNotesOff.induct)
  case (1 i s)
  show ?case
  proof (cases "i \<le> 16")
    case True
    then have "[i..<17] = i # [Suc i..<17]"
      by (simp add: upt_conv_Cons)
    with True "1.IH" show ?thesis
      by (simp add: allNotesOff.simps [of i s] send_def)
  next
    case False
    then show ?thesis
      by (simp add: allNotesOff.simps [of i s])
  qed
qed

lemma toggleStarted_start:
  "\<not> started s \<Longrightarrow>
   toggleStarted s = s\<lparr>started := True, midiOut := midiOut s @ [Start],
                        runningLed := HIGH, currentTick := 0\<rparr>"
  by (simp add: toggleStarted_def send_def Let_def)

lemma toggleStarted_stop:
  "started s \<Longrightarrow>
   toggleStarted s = s\<lparr>started := False,
                        midiOut := midiOut s @ Stop # map (ControlChange 123 0) [1..<17],
                        runningLed := LOW\<rparr>"
  by (simp add: toggleStarted_def send_def Let_def allNotesOff_eq)

lemma toggleStarted_debounce:
  "lastStartDebounceTime (toggleStarted s) = lastStartDebounceTime s"
  by (cases "started s") (simp_all add: toggleStarted_start toggleStarted_stop)

text \<open>
  A poll that reads the button low, with the last level high and the debounce timer idle,
  is an accepted press.
\<close>

lemma doStartStopInput_press:
  assumes "lastStartState s = HIGH" and "lastStartDebounceTime s = 0"
  shows "doStartStopInput LOW ms ms' s =
           (let s1 = toggleStarted (s\<lparr>lastStartDebounceTime := ms, lastStartState := LOW\<rparr>)
            in if ms' - DEBOUNCE_TIME \<ge> lastStartDebounceTime s1
               then s1\<lparr>lastStartDebounceTime := 0\<rparr> else s1)"
  using assms by (simp add: doStartStopInput_def Let_def)

text \<open>
  With no timer interrupt inside the handler, an accepted press while stopped emits Start
  and nothing else and leaves the counter at 0; the Clock messages come afterwards, one per
  tick, the first of them at counter 0.
\<close>

lemma start_toggle_uninterrupted:
  assumes "\<not> started s" and "lastStartState s = HIGH" and "lastStartDebounceTime s = 0"
  shows "started (doStartStopInput LOW ms ms' s)
       \<and> midiOut (doStartStopInput LOW ms ms' s) = midiOut s @ [Start]
       \<and> currentTick (doStartStopInput LOW ms ms' s) = 0
       \<and> runningLed (doStartStopInput LOW ms ms' s) = HIGH
       \<and> midiOut ((clockTick ^^ n) (doStartStopInput LOW ms ms' s))
           = midiOut s @ Start # replicate n Clock"
proof -
  let ?s' = "doStartStopInput LOW ms ms' s"
  have a: "started ?s'" and b: "midiOut ?s' = midiOut s @ [Start]"
    and c: "currentTick ?s' = 0" and d: "runningLed ?s' = HIGH"
    using assms by (simp_all add: doStartStopInput_press toggleStarted_start Let_def)
  from a b have "midiOut ((clockTick ^^ n) ?s') = midiOut s @ Start # replicate n Clock"
    by (simp add: ticks_midiOut)
  with a b c d show ?thesis by simp
qed

lemma ticks_runningLed: "runningLed ((clockTick ^^ n) s) = runningLed s"
  by (induction n) (simp_all add: clockTick_def send_def Let_def)

lemma ticks_lastStartDebounceTime:
  "lastStartDebounceTime ((clockTick ^^ n) s) = lastStartDebounceTime s"
  by (induction n) (simp_all add: clockTick_def send_def Let_def)

lemma toggleStartedIrq_none: "toggleStartedIrq 0 0 0 s = toggleStarted s"
  by (simp add: toggleStartedIrq_def toggleStarted_def Let_def)

lemma doStartStopInputIrq_none:
  "doStartStopInputIrq 0 0 0 newStartState ms ms' s = doStartStopInput newStartState ms ms' s"
  by (simp add: doStartStopInputIrq_def doStartStopInput_def toggleStartedIrq_none Let_def)

lemma toggleStartedIrq_start:
  assumes "\<not> started s"
  shows "started (toggleStartedIrq a b c s)"
    and "midiOut (toggleStartedIrq a b c s)
           = midiOut s @ replicate a Clock @ Start # replicate (b + c) Clock"
    and "currentTick (toggleStartedIrq a b c s) = 0"
    and "runningLed (toggleStartedIrq a b c s) = HIGH"
    and "lastStartDebounceTime (toggleStartedIrq a b c s) = lastStartDebounceTime s"
  using assms
  by (simp_all add: toggleStartedIrq_def Let_def send_def ticks_started ticks_midiOut
        ticks_runningLed ticks_lastStartDebounceTime replicate_add)

text \<open>
  With the timer interrupt served inside the handler, the press still emits exactly one
  Start, ends with the counter at 0 and sets the running LED high; but every interrupt
  after line 140 emits a Clock, before Start (\<open>a\<close>) or before the reset of line 145
  (\<open>b\<close>, \<open>c\<close>).
\<close>

lemma start_toggle_irq:
  assumes "\<not> started s" and "lastStartState s = HIGH" and "lastStartDebounceTime s = 0"
  shows "started (doStartStopInputIrq a b c LOW ms ms' s)
       \<and> midiOut (doStartStopInputIrq a b c LOW ms ms' s)
           = midiOut s @ replicate a Clock @ Start # replicate (b + c) Clock
       \<and> currentTick (doStartStopInputIrq a b c LOW ms ms' s) = 0
       \<and> runningLed (doStartStopInputIrq a b c LOW ms ms' s) = HIGH"
  using assms
  by (simp add: doStartStopInputIrq_def Let_def toggleStartedIrq_start)

text \<open>
  C4. Toggling the transport from Stopped to Running emits exactly one Start message,
  resets the tick counter to 0 before any Clock message is emitted, and sets the running
  LED high. The source sets \<^verbatim>\<open>started\<close> in line 140, before it sends Start (line 143)
  and before it resets the counter (line 145), and the timer interrupt is not masked: with
  one interrupt served between line 140 and line 143, a press at power-on emits Clock
  first and Start after it, and that Clock is emitted before the reset.
\<close>

theorem start_toggle_interrupted:
  "midiOut (doStartStopInputIrq 1 0 0 LOW 100 100 bootState) = [Clock, Start]
   \<and> midiOut (doStartStopInputIrq 0 0 1 LOW 100 100 (bootState\<lparr>currentTick := 7\<rparr>))
       = [Start, Clock]"
  by (simp add: doStartStopInputIrq_def toggleStartedIrq_def clockTick_def send_def Let_def
        DEBOUNCE_TIME_def bootState_def globals_def)

text \<open>
  C5. Toggling the transport from Running to Stopped (an accepted press while
  \<^verbatim>\<open>started\<close> is true) emits exactly one Stop message and exactly 16 all-notes-off
  messages (Control Change 123 with value 0, one per channel 1 to 16), and sets the running
  LED low. Afterwards the tick counter advances on every timer invocation (by one, modulo
  24) while no further message is emitted.
\<close>

theorem stop_toggle:
  assumes "started s" and "lastStartState s = HIGH" and "lastStartDebounceTime s = 0"
    and "currentTick s < 24"
  shows "\<not> started (doStartStopInput LOW ms ms' s)
       \<and> midiOut (doStartStopInput LOW ms ms' s)
           = midiOut s @ Stop # map (ControlChange 123 0) [1..<17]
       \<and> runningLed (doStartStopInput LOW ms ms' s) = LOW
       \<and> midiOut ((clockTick ^^ n) (doStartStopInput LOW ms ms' s))
           = midiOut (doStartStopInput LOW ms ms' s)
       \<and> unat (currentTick ((clockTick ^^ n) (doStartStopInput LOW ms ms' s)))
           = (unat (currentTick s) + n) mod 24"
proof -
  let ?s' = "doStartStopInput LOW ms ms' s"
  have a: "\<not> started ?s'"
    and b: "midiOut ?s' = midiOut s @ Stop # map (ControlChange 123 0) [1..<17]"
    and c: "currentTick ?s' = currentTick s" and d: "runningLed ?s' = LOW"
    using assms by (simp_all add: doStartStopInput_press toggleStarted_stop Let_def)
  from a have e: "midiOut ((clockTick ^^ n) ?s') = midiOut ?s'"
    by (simp add: ticks_midiOut)
  have "unat (currentTick ?s') < 24"
    using assms(4) c by (simp add: word_less_nat_alt)
  from ticks_currentTick [OF this, of n] c
  have f: "unat (currentTick ((clockTick ^^ n) ?s')) = (unat (currentTick s) + n) mod 24"
    by simp
  from a b d e f show ?thesis by simp
qed

theorem stop_toggle_witness:
  "started (bootState\<lparr>started := True, currentTick := 7\<rparr>)
   \<and> lastStartState (bootState\<lparr>started := True, currentTick := 7\<rparr>) = HIGH
   \<and> lastStartDebounceTime (bootState\<lparr>started := True, currentTick := 7\<rparr>) = 0
   \<and> currentTick (bootState\<lparr>started := True, currentTick := 7\<rparr>) < 24
   \<and> midiOut (doStartStopInput LOW 100 100 (bootState\<lparr>started := True, currentTick := 7\<rparr>))
       = Stop # map (ControlChange 123 0) [1..<17]
   \<and> midiOut ((clockTick ^^ 20) (doStartStopInput LOW 100 100
          (bootState\<lparr>started := True, currentTick := 7\<rparr>)))
       = Stop # map (ControlChange 123 0) [1..<17]
   \<and> unat (currentTick ((clockTick ^^ 20) (doStartStopInput LOW 100 100
          (bootState\<lparr>started := True, currentTick := 7\<rparr>)))) = 3"
proof -
  let ?s = "bootState\<lparr>started := True, currentTick := 7\<rparr>"
  have h: "started ?s" "lastStartState ?s = HIGH" "lastStartDebounceTime ?s = 0"
    "currentTick ?s < 24"
    by (simp_all add: bootState_fields)
  have m: "midiOut ?s = []" "unat (currentTick ?s) = 7"
    by (simp_all add: bootState_fields)
  from stop_toggle [OF h, of 100 100 20] h m show ?thesis
    by simp
qed

section \<open>Debouncing\<close>

text \<open>
  While the debounce timer runs, a poll whose second reading of \<^verbatim>\<open>millis()\<close> is at
  least 30 and less than 30 ms after the start of the timer changes nothing, whatever
  level it reads.
\<close>

lemma doStartStopInput_in_window:
  assumes "lastStartDebounceTime s \<noteq> 0" and "30 \<le> unat ms'"
    and "unat ms' < unat (lastStartDebounceTime s) + 30"
  shows "doStartStopInput raw ms ms' s = s"
proof -
  have "(30 :: ulong) \<le> ms'"
    using assms(2) by (simp add: word_le_nat_alt)
  then have "unat (ms' - 30) = unat ms' - 30"
    by (simp add: unat_sub)
  with assms(2,3) have "\<not> lastStartDebounceTime s \<le> ms' - 30"
    by (simp add: word_le_nat_alt)
  with assms(1) show ?thesis
    by (simp add: doStartStopInput_def DEBOUNCE_TIME_def)
qed

lemma doStartStopInput_press_in_window:
  assumes "lastStartState s = HIGH" and "lastStartDebounceTime s = 0"
    and "30 \<le> unat ms'" and "unat ms' < unat ms + 30"
  shows "doStartStopInput LOW ms ms' s
         = toggleStarted (s\<lparr>lastStartDebounceTime := ms, lastStartState := LOW\<rparr>)"
proof -
  have "(30 :: ulong) \<le> ms'"
    using assms(3) by (simp add: word_le_nat_alt)
  then have "unat (ms' - 30) = unat ms' - 30"
    by (simp add: unat_sub)
  with assms(3,4) have "\<not> ms \<le> ms' - 30"
    by (simp add: word_le_nat_alt)
  then show ?thesis
    using assms(1,2)
    by (simp add: doStartStopInput_press toggleStarted_debounce Let_def DEBOUNCE_TIME_def)
qed

text \<open>
  From 30 ms after power-on the debouncing works as described: five polls reading low, high,
  low, high, low, with every reading of \<^verbatim>\<open>millis()\<close> in the 30 ms after the first,
  are one press, accepted at the first sample, and nothing more.
\<close>

lemma debounce_one_press_after_30ms:
  assumes "lastStartState s = HIGH" and "lastStartDebounceTime s = 0"
    and "30 \<le> unat t0"
    and "\<forall>r \<in> {r0, r1, r2, r3, r4}. unat t0 \<le> unat r \<and> unat r < unat t0 + 30"
  shows "doStartStopInput LOW t4 r4 (doStartStopInput HIGH t3 r3 (doStartStopInput LOW t2 r2
           (doStartStopInput HIGH t1 r1 (doStartStopInput LOW t0 r0 s))))
         = toggleStarted (s\<lparr>lastStartDebounceTime := t0, lastStartState := LOW\<rparr>)"
proof -
  let ?p = "toggleStarted (s\<lparr>lastStartDebounceTime := t0, lastStartState := LOW\<rparr>)"
  have t: "lastStartDebounceTime ?p = t0"
    by (simp add: toggleStarted_debounce)
  have nz: "lastStartDebounceTime ?p \<noteq> 0"
    using assms(3) t by auto
  have w: "30 \<le> unat r \<and> unat r < unat (lastStartDebounceTime ?p) + 30"
    if "r \<in> {r0, r1, r2, r3, r4}" for r
    using assms(3,4) that t by auto
  have p0: "doStartStopInput LOW t0 r0 s = ?p"
    using assms(1,2) w [of r0] t by (simp add: doStartStopInput_press_in_window)
  have stay: "doStartStopInput raw ms r ?p = ?p" if "r \<in> {r0, r1, r2, r3, r4}" for raw ms r
    using nz w [OF that] by (intro doStartStopInput_in_window) simp_all
  show ?thesis
    by (simp add: p0 stay)
qed

text \<open>
  C10. For a raw level that jitters (samples 0, 1, 0, 1, 0 on an active-low button) within
  one \<open>DEBOUNCE_TIME\<close> window of 30 ms, the poller reports exactly one press. In the first
  30 ms after power-on it does not: \<^verbatim>\<open>millis() - DEBOUNCE_TIME\<close> wraps around, the
  test in line 157 succeeds at once and the timer is idle again at the next poll. With
  the transport button sampled at 3, 6, 9, 12 and 15 ms every change of level is accepted:
  three presses, seen as Start, Stop with the 16 all-notes-off messages, and Start again.
\<close>

theorem debounce_fails_before_30ms:
  "midiOut (doStartStopInput LOW 15 15 (doStartStopInput HIGH 12 12 (doStartStopInput LOW 9 9
      (doStartStopInput HIGH 6 6 (doStartStopInput LOW 3 3 bootState)))))
   = Start # Stop # map (ControlChange 123 0) [1..<17] @ [Start]"
  by (simp add: doStartStopInput_def toggleStarted_def send_def allNotesOff_eq Let_def
        DEBOUNCE_TIME_def bootState_def globals_def)

text \<open>
  The tap button has the same test (line 183): the same samples are three taps, of which
  the second and the third each write the tempo \<open>60000000 / 6000 = 10000\<close>.
\<close>

lemma tap_button_bounce_before_30ms:
  "andThen (andThen (andThen (andThen (doTapInput LOW 3 3000 3 bootState)
      (doTapInput HIGH 6 6000 6)) (doTapInput LOW 9 9000 9)) (doTapInput HIGH 12 12000 12))
      (doTapInput LOW 15 15000 15)
   = Inr (bootState\<lparr>lastTapTime := 15000, tapExpireTime := 12000, lastTapState := LOW,
                     tempo := 10000, timerPeriod := 4294964587\<rparr>)"
  by (simp add: andThen_def doTapInput_def debounceTap_def tapTempo_def ulong_div_def
        setPeriod_def calcTempoMicros_def long_div_def Let_def cdefs bootState_def globals_def)

end
